theory Spec2Isabelle
  imports Main "HOL-Library.Word"
begin

section \<open>JavaScript strings and values\<close>

text \<open>
  A JavaScript string is a sequence of UTF-16 code units, and \<open>length\<close> counts code units.
  ASCII literals of the source are embedded with \<open>js\<close>.
\<close>

type_synonym jschar = "16 word"
type_synonym jsstring = "jschar list"

definition ch :: "char \<Rightarrow> jschar" where
  "ch c = of_char c"

definition js :: "string \<Rightarrow> jsstring" where
  "js s = map ch s"

text \<open>The line feed of the template literals (\<open>\n\<close>).\<close>

definition newline :: jsstring where
  "newline = [0x0A]"

text \<open>
  Number-to-string conversion of template literals, for the integers the retry loop
  prints (\<open>opts.maxAttempts\<close> and \<open>attempt + 1\<close>).
\<close>

definition digit :: "nat \<Rightarrow> jschar" where
  "digit d = of_nat (48 + d)"

fun nat_toString :: "nat \<Rightarrow> jsstring" where
  "nat_toString n = (if n < 10 then [digit n] else nat_toString (n div 10) @ [digit (n mod 10)])"

declare nat_toString.simps [simp del]

definition Number_toString :: "int \<Rightarrow> jsstring" where
  "Number_toString i = (if i < 0 then ch CHR ''-'' # nat_toString (nat (- i)) else nat_toString (nat i))"

text \<open>\<open>Array.prototype.join\<close>.\<close>

fun join :: "jsstring \<Rightarrow> jsstring list \<Rightarrow> jsstring" where
  "join sep [] = []"
| "join sep [x] = x"
| "join sep (x # y # ys) = x @ sep @ join sep (y # ys)"

text \<open>
  The values that reach the error paths:
  \<^item> \<open>JString s\<close>, a primitive string;
  \<^item> \<open>JError name message\<close>, an \<open>Error\<close> instance with its \<open>name\<close> and \<open>message\<close>;
  \<^item> \<open>JOther r\<close>, any other value that \<open>String()\<close> converts, to the string \<open>r\<close>;
  \<^item> \<open>JThrowing x\<close>, any other value whose conversion by \<open>String()\<close> throws \<open>x\<close>: an object
    without \<open>toString\<close> and \<open>valueOf\<close>, such as \<open>Object.create(null)\<close>, for which \<open>x\<close> is a
    \<open>TypeError\<close>, or an object whose \<open>toString\<close> throws \<open>x\<close>.
\<close>

datatype jsval = JString jsstring | JError jsstring jsstring | JOther jsstring | JThrowing jsval

text \<open>
  How an evaluation ends: it yields a value or throws one. For a promise that is awaited
  these are its fulfilment and its rejection.
\<close>

datatype 't completion = Normal 't | Throw jsval

fun instanceof_Error :: "jsval \<Rightarrow> bool" where
  "instanceof_Error (JError n m) = True"
| "instanceof_Error v = False"

text \<open>\<open>String(v)\<close>; for an \<open>Error\<close> this is \<open>Error.prototype.toString\<close>.\<close>

fun String_js :: "jsval \<Rightarrow> jsstring completion" where
  "String_js (JString s) = Normal s"
| "String_js (JError n m) = Normal (if n = [] then m else if m = [] then n else n @ js '': '' @ m)"
| "String_js (JOther r) = Normal r"
| "String_js (JThrowing x) = Throw x"

fun message :: "jsval \<Rightarrow> jsstring" where
  "message (JError n m) = m"
| "message v = []"

text \<open>\<open>new Error(msg)\<close>.\<close>

definition new_Error :: "jsstring \<Rightarrow> jsval" where
  "new_Error msg = JError (js ''Error'') msg"

text \<open>
  The \<open>TypeError\<close> that \<open>String()\<close> throws for an object without a string conversion, and
  such an object.
\<close>

definition no_primitive_TypeError :: jsval where
  "no_primitive_TypeError = JError (js ''TypeError'') (js ''Cannot convert object to primitive value'')"

definition Object_create_null :: jsval where
  "Object_create_null = JThrowing no_primitive_TypeError"

section \<open>types.ts: Result, branded strings, tryCatch\<close>

datatype ('t, 'e) result = Ok 't | Err 'e

text \<open>
  The branded types are \<open>string & {brand}\<close>: at run time a branded value is the string itself,
  and the constructors are casts.
\<close>

definition PlaintextValue :: "jsstring \<Rightarrow> jsstring" where
  "PlaintextValue v = v"

definition EncryptedValue :: "jsstring \<Rightarrow> jsstring" where
  "EncryptedValue v = v"

definition Base64String :: "jsstring \<Rightarrow> jsstring" where
  "Base64String v = v"

definition PEMCertificate :: "jsstring \<Rightarrow> jsstring" where
  "PEMCertificate v = v"

definition unwrap :: "jsstring \<Rightarrow> jsstring" where
  "unwrap v = v"

text \<open>
  A callable is a function of the state of the world it runs in; it returns how its
  evaluation ends, and the new state. \<open>tryCatch\<close> and \<open>tryCatchAsync\<close> are modelled with
  their own completion: the expression \<open>new Error(String(error))\<close> is evaluated in the
  \<open>catch\<close> block, where nothing catches what \<open>String(error)\<close> throws.
\<close>

type_synonym ('s, 't) callable = "'s \<Rightarrow> 't completion \<times> 's"

definition tryCatch :: "('s, 't) callable \<Rightarrow> 's \<Rightarrow> ('t, jsval) result completion \<times> 's" where
  "tryCatch fn s =
     (case fn s of
        (Normal v, s') \<Rightarrow> (Normal (Ok v), s')
      | (Throw error, s') \<Rightarrow>
          (if instanceof_Error error then (Normal (Err error), s')
           else (case String_js error of
                   Normal msg \<Rightarrow> (Normal (Err (new_Error msg)), s')
                 | Throw x \<Rightarrow> (Throw x, s'))))"

definition tryCatchAsync :: "('s, 't) callable \<Rightarrow> 's \<Rightarrow> ('t, jsval) result completion \<times> 's" where
  "tryCatchAsync fn s =
     (case fn s of
        (Normal v, s') \<Rightarrow> (let value = v in (Normal (Ok value), s'))
      | (Throw error, s') \<Rightarrow>
          (if instanceof_Error error then (Normal (Err error), s')
           else (case String_js error of
                   Normal msg \<Rightarrow> (Normal (Err (new_Error msg)), s')
                 | Throw x \<Rightarrow> (Throw x, s'))))"

section \<open>lib/retry.ts\<close>

text \<open>
  JavaScript numbers are IEEE-754 doubles. Their arithmetic is not fixed here: the type
  \<open>'n\<close> of numbers and the operations that \<open>calculateDelay\<close> uses are parameters, \<open>n_int\<close>
  giving the number of an integer literal, \<open>n_quarter\<close> the literal \<open>0.25\<close> and \<open>n_NaN\<close> the
  number that \<open>undefined\<close> converts to. The attempt counter and \<open>maxAttempts\<close>, which count
  attempts, are integers.
\<close>

record 'n arithmetic =
  n_int :: "int \<Rightarrow> 'n"
  n_quarter :: 'n
  n_NaN :: 'n
  n_times :: "'n \<Rightarrow> 'n \<Rightarrow> 'n"
  n_plus :: "'n \<Rightarrow> 'n \<Rightarrow> 'n"
  n_minus :: "'n \<Rightarrow> 'n \<Rightarrow> 'n"
  Math_pow :: "'n \<Rightarrow> 'n \<Rightarrow> 'n"
  Math_min :: "'n \<Rightarrow> 'n \<Rightarrow> 'n"
  Math_max :: "'n \<Rightarrow> 'n \<Rightarrow> 'n"
  Math_floor :: "'n \<Rightarrow> 'n"

text \<open>
  A property of the \<open>options\<close> argument is absent, present with the value \<open>undefined\<close>, or
  given.
\<close>

datatype 'a property = Absent | Undefined | Given 'a

record 'n RetryOptions =
  o_maxAttempts :: "int property"
  o_initialDelayMs :: "'n property"
  o_maxDelayMs :: "'n property"
  o_backoffMultiplier :: "'n property"
  o_useJitter :: "bool property"
  o_isRetryable :: "(jsval \<Rightarrow> bool) property"

text \<open>
  The object \<open>opts\<close>: every property is present, and holds a value or \<open>undefined\<close> (\<open>None\<close>).
\<close>

record 'n RequiredRetryOptions =
  maxAttempts :: "int option"
  initialDelayMs :: "'n option"
  maxDelayMs :: "'n option"
  backoffMultiplier :: "'n option"
  useJitter :: "bool option"
  isRetryable :: "(jsval \<Rightarrow> bool) option"

definition DEFAULT_RETRY_OPTIONS :: "'n arithmetic \<Rightarrow> 'n RequiredRetryOptions" where
  "DEFAULT_RETRY_OPTIONS A =
     \<lparr>maxAttempts = Some 3, initialDelayMs = Some (n_int A 1000), maxDelayMs = Some (n_int A 10000),
      backoffMultiplier = Some (n_int A 2), useJitter = Some True, isRetryable = Some (\<lambda>e. True)\<rparr>"

text \<open>
  \<open>{ ...DEFAULT_RETRY_OPTIONS, ...options }\<close>: a property that is present in \<open>options\<close> overrides
  the default, also when its value is \<open>undefined\<close>.
\<close>

definition spread_property :: "'a option \<Rightarrow> 'a property \<Rightarrow> 'a option" where
  "spread_property d p = (case p of Absent \<Rightarrow> d | Undefined \<Rightarrow> None | Given v \<Rightarrow> Some v)"

definition spread_options :: "'n RequiredRetryOptions \<Rightarrow> 'n RetryOptions \<Rightarrow> 'n RequiredRetryOptions" where
  "spread_options d options =
     \<lparr>maxAttempts = spread_property (maxAttempts d) (o_maxAttempts options),
      initialDelayMs = spread_property (initialDelayMs d) (o_initialDelayMs options),
      maxDelayMs = spread_property (maxDelayMs d) (o_maxDelayMs options),
      backoffMultiplier = spread_property (backoffMultiplier d) (o_backoffMultiplier options),
      useJitter = spread_property (useJitter d) (o_useJitter options),
      isRetryable = spread_property (isRetryable d) (o_isRetryable options)\<rparr>"

text \<open>The conversion of a property to a number, and to a condition.\<close>

definition to_number :: "'n arithmetic \<Rightarrow> 'n option \<Rightarrow> 'n" where
  "to_number A x = (case x of Some v \<Rightarrow> v | None \<Rightarrow> n_NaN A)"

definition truthy :: "bool option \<Rightarrow> bool" where
  "truthy b = (case b of Some v \<Rightarrow> v | None \<Rightarrow> False)"

text \<open>
  \<open>calculateDelay\<close>. The value that \<open>Math.random()\<close> returns is the argument \<open>random\<close>; it is
  read only when jitter is on.
\<close>

definition calculateDelay :: "'n arithmetic \<Rightarrow> nat \<Rightarrow> 'n RequiredRetryOptions \<Rightarrow> 'n \<Rightarrow> 'n" where
  "calculateDelay A attempt options random =
     (let delay = n_times A (to_number A (initialDelayMs options))
                    (Math_pow A (to_number A (backoffMultiplier options)) (n_int A (int attempt)));
          delay = Math_min A delay (to_number A (maxDelayMs options));
          delay = (if truthy (useJitter options)
                   then (let jitterRange = n_times A delay (n_quarter A);
                             jitter = n_minus A (n_times A (n_times A random jitterRange) (n_int A 2)) jitterRange
                         in Math_max A (n_int A 0) (n_plus A delay jitter))
                   else delay)
      in Math_floor A delay)"

text \<open>
  What one invocation of the operation gives: a \<open>Result\<close> (the promise fulfilled), or an
  exception (the promise rejected). The operation acts on a world of type \<open>'s\<close>, and
  every invocation is taken to settle.
\<close>

datatype 't outcome = Returned "('t, jsval) result" | Thrown jsval

type_synonym ('s, 't) operation = "'s \<Rightarrow> 't outcome \<times> 's"

text \<open>
  The state of a run: the operation's world, how many times the operation has been invoked,
  the delays slept so far, and how many values of \<open>Math.random()\<close> have been drawn.
\<close>

record ('s, 'n) run =
  world :: 's
  calls :: nat
  sleeps :: "'n list"
  draws :: nat

text \<open>
  The two \<open>errorMessage\<close> constants: of the \<open>try\<close> block (\<open>result.error\<close> itself when it is a
  string, and \<open>String(result.error)\<close> otherwise) and of the \<open>catch\<close> block. Each conversion can
  throw.
\<close>

definition returned_errorMessage :: "jsval \<Rightarrow> jsstring completion" where
  "returned_errorMessage e = (case e of JString s \<Rightarrow> Normal s | _ \<Rightarrow> String_js e)"

definition thrown_errorMessage :: "jsval \<Rightarrow> jsstring completion" where
  "thrown_errorMessage e = (if instanceof_Error e then Normal (message e) else String_js e)"

definition attempt_line :: "nat \<Rightarrow> jsstring \<Rightarrow> jsstring" where
  "attempt_line attempt errorMessage =
     js ''Attempt '' @ Number_toString (int attempt + 1) @ js '': '' @ errorMessage"

text \<open>
  The uses of \<open>opts.maxAttempts\<close>: in the loop condition \<open>attempt < opts.maxAttempts\<close>, in
  \<open>attempt === opts.maxAttempts - 1\<close> and in the template literal. Both comparisons are false
  for \<open>undefined\<close>.
\<close>

definition less_maxAttempts :: "nat \<Rightarrow> int option \<Rightarrow> bool" where
  "less_maxAttempts attempt m = (case m of Some n \<Rightarrow> int attempt < n | None \<Rightarrow> False)"

definition isLastAttempt :: "nat \<Rightarrow> int option \<Rightarrow> bool" where
  "isLastAttempt attempt m = (case m of Some n \<Rightarrow> int attempt = n - 1 | None \<Rightarrow> False)"

definition maxAttempts_toString :: "int option \<Rightarrow> jsstring" where
  "maxAttempts_toString m = (case m of Some n \<Rightarrow> Number_toString n | None \<Rightarrow> js ''undefined'')"

definition failure_message :: "'n RequiredRetryOptions \<Rightarrow> jsstring list \<Rightarrow> jsstring" where
  "failure_message opts errors =
     js ''Operation failed after '' @ maxAttempts_toString (maxAttempts opts) @ js '' attempts:''
       @ newline @ join newline errors"

text \<open>\<open>const delay = calculateDelay(attempt, opts); await sleep(delay)\<close>.\<close>

definition delay_and_sleep ::
  "'n arithmetic \<Rightarrow> nat \<Rightarrow> 'n RequiredRetryOptions \<Rightarrow> (nat \<Rightarrow> 'n) \<Rightarrow> ('s, 'n) run \<Rightarrow> ('s, 'n) run" where
  "delay_and_sleep A attempt opts random st =
     (let delay = calculateDelay A attempt opts (random (draws st))
      in st\<lparr>sleeps := sleeps st @ [delay],
            draws := (if truthy (useJitter opts) then Suc (draws st) else draws st)\<rparr>)"

text \<open>
  The loop of \<open>retryWithBackoff\<close>. The result is a completion: \<open>Throw\<close> is the rejection of
  the promise that \<open>retryWithBackoff\<close> returns. What \<open>String(result.error)\<close> throws in the
  \<open>try\<close> block is caught by the \<open>catch\<close> block; what \<open>String(error)\<close> throws in the \<open>catch\<close>
  block rejects the promise.
\<close>

function retry_loop ::
  "'n arithmetic \<Rightarrow> ('s, 't) operation \<Rightarrow> 'n RequiredRetryOptions \<Rightarrow> (nat \<Rightarrow> 'n) \<Rightarrow> nat
     \<Rightarrow> jsstring list \<Rightarrow> ('s, 'n) run \<Rightarrow> ('t, jsstring) result completion \<times> ('s, 'n) run" where
  "retry_loop A operation opts random attempt errors st =
     (if less_maxAttempts attempt (maxAttempts opts) then
        (case operation (world st) of (out, w) \<Rightarrow>
           (let st1 = st\<lparr>world := w, calls := Suc (calls st)\<rparr> in
            case out of
              Returned (Ok v) \<Rightarrow> (Normal (Ok v), st1)
            | Returned (Err e) \<Rightarrow>
                (case returned_errorMessage e of
                   Normal errorMessage \<Rightarrow>
                     (let errors1 = errors @ [attempt_line attempt errorMessage] in
                      if isLastAttempt attempt (maxAttempts opts)
                      then (Normal (Err (failure_message opts errors1)), st1)
                      else retry_loop A operation opts random (Suc attempt) errors1
                             (delay_and_sleep A attempt opts random st1))
                 | Throw error \<Rightarrow>
                     (case thrown_errorMessage error of
                        Normal errorMessage \<Rightarrow>
                          (let errors1 = errors @ [attempt_line attempt errorMessage] in
                           if isLastAttempt attempt (maxAttempts opts)
                           then (Normal (Err (failure_message opts errors1)), st1)
                           else retry_loop A operation opts random (Suc attempt) errors1
                                  (delay_and_sleep A attempt opts random st1))
                      | Throw x \<Rightarrow> (Throw x, st1)))
            | Thrown error \<Rightarrow>
                (case thrown_errorMessage error of
                   Normal errorMessage \<Rightarrow>
                     (let errors1 = errors @ [attempt_line attempt errorMessage] in
                      if isLastAttempt attempt (maxAttempts opts)
                      then (Normal (Err (failure_message opts errors1)), st1)
                      else retry_loop A operation opts random (Suc attempt) errors1
                             (delay_and_sleep A attempt opts random st1))
                 | Throw x \<Rightarrow> (Throw x, st1))))
      else (Normal (Err (failure_message opts errors)), st))"
  by pat_completeness auto
termination
  by (relation "measure (\<lambda>(A, operation, opts, random, attempt, errors, st).
        nat ((case maxAttempts opts of Some n \<Rightarrow> n | None \<Rightarrow> 0) - int attempt))")
    (auto simp: less_maxAttempts_def split: option.splits)

declare retry_loop.simps [simp del]

definition retryWithBackoff ::
  "'n arithmetic \<Rightarrow> ('s, 't) operation \<Rightarrow> 'n RetryOptions \<Rightarrow> (nat \<Rightarrow> 'n) \<Rightarrow> 's
     \<Rightarrow> ('t, jsstring) result completion \<times> ('s, 'n) run" where
  "retryWithBackoff A operation options random w =
     (let opts = spread_options (DEFAULT_RETRY_OPTIONS A) options
      in retry_loop A operation opts random 0 [] \<lparr>world = w, calls = 0, sleeps = [], draws = 0\<rparr>)"

text \<open>
  The outcomes of the first \<open>n\<close> invocations of an operation from a world \<open>w\<close>, and the world
  they leave.
\<close>

fun op_trace :: "('s, 't) operation \<Rightarrow> 's \<Rightarrow> nat \<Rightarrow> 't outcome list" where
  "op_trace operation w 0 = []"
| "op_trace operation w (Suc n) = fst (operation w) # op_trace operation (snd (operation w)) n"

fun op_world :: "('s, 't) operation \<Rightarrow> 's \<Rightarrow> nat \<Rightarrow> 's" where
  "op_world operation w 0 = w"
| "op_world operation w (Suc n) = op_world operation (snd (operation w)) n"

fun is_success :: "'t outcome \<Rightarrow> bool" where
  "is_success (Returned (Ok v)) = True"
| "is_success out = False"

fun is_failure :: "'t outcome \<Rightarrow> bool" where
  "is_failure (Returned (Err e)) = True"
| "is_failure out = False"

text \<open>
  What the loop does with an attempt that did not succeed: it records a message for it, or
  the \<open>catch\<close> block throws.
\<close>

fun attempt_errorMessage :: "'t outcome \<Rightarrow> jsstring completion" where
  "attempt_errorMessage (Returned (Err e)) =
     (case returned_errorMessage e of Normal msg \<Rightarrow> Normal msg | Throw error \<Rightarrow> thrown_errorMessage error)"
| "attempt_errorMessage (Thrown error) = thrown_errorMessage error"
| "attempt_errorMessage (Returned (Ok v)) = Normal []"

text \<open>The lines of the attempts numbered \<open>a + 1\<close>, \<open>a + 2\<close>, ... for a list of messages.\<close>

fun attempt_lines :: "nat \<Rightarrow> jsstring list \<Rightarrow> jsstring list" where
  "attempt_lines a [] = []"
| "attempt_lines a (msg # msgs) = attempt_line a msg # attempt_lines (Suc a) msgs"

text \<open>
  Faults and failed attempts that have a text, stated with \<open>String()\<close> alone: a fault that is
  an \<open>Error\<close> or that \<open>String()\<close> converts; a returned error that \<open>String()\<close> converts, or for
  which it throws a fault that has a text; a thrown fault that has a text.
\<close>

definition fault_has_text :: "jsval \<Rightarrow> bool" where
  "fault_has_text x = (instanceof_Error x \<or> (case String_js x of Normal s \<Rightarrow> True | Throw y \<Rightarrow> False))"

fun attempt_has_text :: "'t outcome \<Rightarrow> bool" where
  "attempt_has_text (Returned (Err e)) = (case String_js e of Normal s \<Rightarrow> True | Throw x \<Rightarrow> fault_has_text x)"
| "attempt_has_text (Thrown x) = fault_has_text x"
| "attempt_has_text (Returned (Ok v)) = False"

section \<open>lib/validators.ts\<close>

subsection \<open>Whitespace and regular expressions\<close>

text \<open>
  The code units that \<open>String.prototype.trim\<close> strips and that \<open>\s\<close> matches: ECMAScript's
  WhiteSpace and LineTerminator.
\<close>

definition is_whitespace :: "jschar \<Rightarrow> bool" where
  "is_whitespace c =
     (c = 0x09 \<or> c = 0x0A \<or> c = 0x0B \<or> c = 0x0C \<or> c = 0x0D \<or> c = 0x20 \<or> c = 0xA0
      \<or> c = 0x1680 \<or> (0x2000 \<le> c \<and> c \<le> 0x200A) \<or> c = 0x2028 \<or> c = 0x2029
      \<or> c = 0x202F \<or> c = 0x205F \<or> c = 0x3000 \<or> c = 0xFEFF)"

definition trim :: "jsstring \<Rightarrow> jsstring" where
  "trim s = rev (dropWhile is_whitespace (rev (dropWhile is_whitespace s)))"

text \<open>
  The regular expressions of the source use character classes, concatenation, groups with
  \<open>?\<close>, \<open>*\<close> and \<open>+\<close>, and are anchored at both ends. \<open>Never\<close> matches nothing; it is what
  a derivative gives when a code unit is not accepted.
\<close>

datatype rx = Never | Eps | Atom "jschar \<Rightarrow> bool" | Seq rx rx | Alt rx rx | Star rx

definition Opt :: "rx \<Rightarrow> rx" where
  "Opt r = Alt r Eps"

definition Plus :: "rx \<Rightarrow> rx" where
  "Plus r = Seq r (Star r)"

fun Lit :: "jsstring \<Rightarrow> rx" where
  "Lit [] = Eps"
| "Lit (c # cs) = Seq (Atom (\<lambda>x. x = c)) (Lit cs)"

fun nullable :: "rx \<Rightarrow> bool" where
  "nullable Never = False"
| "nullable Eps = True"
| "nullable (Atom p) = False"
| "nullable (Seq r s) = (nullable r \<and> nullable s)"
| "nullable (Alt r s) = (nullable r \<or> nullable s)"
| "nullable (Star r) = True"

fun deriv :: "jschar \<Rightarrow> rx \<Rightarrow> rx" where
  "deriv c Never = Never"
| "deriv c Eps = Never"
| "deriv c (Atom p) = (if p c then Eps else Never)"
| "deriv c (Seq r s) = (if nullable r then Alt (Seq (deriv c r) s) (deriv c s) else Seq (deriv c r) s)"
| "deriv c (Alt r s) = Alt (deriv c r) (deriv c s)"
| "deriv c (Star r) = Seq (deriv c r) (Star r)"

text \<open>\<open>/^r$/.test(s)\<close>: the whole of \<open>s\<close> matches \<open>r\<close>.\<close>

definition rx_test :: "rx \<Rightarrow> jsstring \<Rightarrow> bool" where
  "rx_test r s = nullable (foldl (\<lambda>r c. deriv c r) r s)"

subsection \<open>Name validation\<close>

text \<open>The classes \<open>[a-z0-9]\<close> and \<open>[-a-z0-9]\<close>.\<close>

definition lower_alnum :: "jschar \<Rightarrow> bool" where
  "lower_alnum c = ((ch CHR ''a'' \<le> c \<and> c \<le> ch CHR ''z'') \<or> (ch CHR ''0'' \<le> c \<and> c \<le> ch CHR ''9''))"

definition hyphen_lower_alnum :: "jschar \<Rightarrow> bool" where
  "hyphen_lower_alnum c = (c = ch CHR ''-'' \<or> lower_alnum c)"

text \<open>\<open>[a-z0-9]([-a-z0-9]*[a-z0-9])?\<close>\<close>

definition k8s_label_rx :: rx where
  "k8s_label_rx = Seq (Atom lower_alnum) (Opt (Seq (Star (Atom hyphen_lower_alnum)) (Atom lower_alnum)))"

text \<open>\<open>/^[a-z0-9]([-a-z0-9]*[a-z0-9])?(\.[a-z0-9]([-a-z0-9]*[a-z0-9])?)*$/\<close>\<close>

definition k8s_name_rx :: rx where
  "k8s_name_rx = Seq k8s_label_rx (Star (Seq (Atom (\<lambda>c. c = ch CHR ''.'')) k8s_label_rx))"

definition isValidK8sName :: "jsstring \<Rightarrow> bool" where
  "isValidK8sName name =
     (if name = [] \<or> length name = 0 \<or> length name > 253 then False
      else rx_test k8s_name_rx name)"

record ValidationResult =
  valid :: bool
  error :: "jsstring option"

definition validateSecretName :: "jsstring \<Rightarrow> ValidationResult" where
  "validateSecretName name =
     (if name = [] \<or> length (trim name) = 0
      then \<lparr>valid = False, error = Some (js ''Secret name is required'')\<rparr>
      else if length name > 253
      then \<lparr>valid = False, error = Some (js ''Secret name must be 253 characters or less'')\<rparr>
      else if \<not> isValidK8sName name
      then \<lparr>valid = False,
            error = Some (js ''Secret name must be lowercase alphanumeric, may contain hyphens and dots, and must start/end with alphanumeric'')\<rparr>
      else \<lparr>valid = True, error = None\<rparr>)"

subsection \<open>Value validation\<close>

definition validateSecretValue :: "jsstring \<Rightarrow> ValidationResult" where
  "validateSecretValue v =
     (if v = [] \<or> length (trim v) = 0
      then \<lparr>valid = False, error = Some (js ''Secret value is required'')\<rparr>
      else if length v > 1024 * 1024
      then \<lparr>valid = False, error = Some (js ''Secret value must be less than 1MB'')\<rparr>
      else \<lparr>valid = True, error = None\<rparr>)"

subsection \<open>Certificate validation\<close>

definition BEGIN_CERTIFICATE :: jsstring where
  "BEGIN_CERTIFICATE = js ''-----BEGIN CERTIFICATE-----''"

definition END_CERTIFICATE :: jsstring where
  "END_CERTIFICATE = js ''-----END CERTIFICATE-----''"

text \<open>\<open>/^-----BEGIN CERTIFICATE-----\s+[\s\S]+\s+-----END CERTIFICATE-----\s*$/\<close>\<close>

definition pemRegex :: rx where
  "pemRegex =
     Seq (Lit BEGIN_CERTIFICATE)
       (Seq (Plus (Atom is_whitespace))
         (Seq (Plus (Atom (\<lambda>c. is_whitespace c \<or> \<not> is_whitespace c)))
           (Seq (Plus (Atom is_whitespace))
             (Seq (Lit END_CERTIFICATE) (Star (Atom is_whitespace))))))"

definition isValidPEM :: "jsstring \<Rightarrow> bool" where
  "isValidPEM v = (if v = [] then False else rx_test pemRegex (trim v))"

definition validatePEMCertificate :: "jsstring \<Rightarrow> ValidationResult" where
  "validatePEMCertificate pem =
     (if pem = [] \<or> length (trim pem) = 0
      then \<lparr>valid = False, error = Some (js ''Certificate is required'')\<rparr>
      else if \<not> isValidPEM pem
      then \<lparr>valid = False,
            error = Some (js ''Invalid PEM format. Must contain BEGIN CERTIFICATE and END CERTIFICATE markers'')\<rparr>
      else \<lparr>valid = True, error = None\<rparr>)"

section \<open>The specification's wording of the validation rules\<close>

text \<open>
  Splitting a string at every occurrence of a separator, as \<open>String.prototype.split\<close> does:
  the empty string gives one empty piece.
\<close>

fun split_on :: "'a \<Rightarrow> 'a list \<Rightarrow> 'a list list" where
  "split_on d [] = [[]]"
| "split_on d (c # cs) =
     (if c = d then [] # split_on d cs
      else (case split_on d cs of [] \<Rightarrow> [[c]] | w # ws \<Rightarrow> (c # w) # ws))"

definition spec_lower_alnum :: "jschar \<Rightarrow> bool" where
  "spec_lower_alnum c = (c \<in> set (js ''abcdefghijklmnopqrstuvwxyz0123456789''))"

text \<open>
  A label: lowercase alphanumerics and hyphens, starting and ending with a lowercase
  alphanumeric.
\<close>

definition spec_dns_label :: "jsstring \<Rightarrow> bool" where
  "spec_dns_label l =
     (l \<noteq> [] \<and> list_all (\<lambda>c. spec_lower_alnum c \<or> c = ch CHR ''-'') l
      \<and> spec_lower_alnum (hd l) \<and> spec_lower_alnum (last l))"

text \<open>The DNS-subdomain grammar: labels separated by dots.\<close>

definition spec_dns_subdomain :: "jsstring \<Rightarrow> bool" where
  "spec_dns_subdomain name = list_all spec_dns_label (split_on (ch CHR ''.'') name)"

text \<open>
  The size of a string in bytes, in UTF-8, counted by code unit: one byte below U+0080, two
  below U+0800, three otherwise, and two for each half of a surrogate pair (four for the pair).
\<close>

definition utf8_unit_size :: "jschar \<Rightarrow> nat" where
  "utf8_unit_size c =
     (if c < 0x80 then 1 else if c < 0x800 then 2
      else if 0xD800 \<le> c \<and> c \<le> 0xDFFF then 2 else 3)"

definition spec_byte_size :: "jsstring \<Rightarrow> nat" where
  "spec_byte_size s = sum_list (map utf8_unit_size s)"

definition spec_value_valid :: "jsstring \<Rightarrow> bool" where
  "spec_value_valid v = (trim v \<noteq> [] \<and> spec_byte_size v \<le> 1048576)"

text \<open>
  A certificate envelope around base64 content: the BEGIN line, then code units of the
  base64 alphabet (with padding) and line breaks or other whitespace, then the END line.
\<close>

definition spec_base64_char :: "jschar \<Rightarrow> bool" where
  "spec_base64_char c =
     (c \<in> set (js ''ABCDEFGHIJKLMNOPQRSTUVWXYZabcdefghijklmnopqrstuvwxyz0123456789+/=''))"

definition spec_pem_envelope :: "jsstring \<Rightarrow> bool" where
  "spec_pem_envelope t =
     (length BEGIN_CERTIFICATE + length END_CERTIFICATE \<le> length t
      \<and> take (length BEGIN_CERTIFICATE) t = BEGIN_CERTIFICATE
      \<and> drop (length t - length END_CERTIFICATE) t = END_CERTIFICATE
      \<and> list_all (\<lambda>c. spec_base64_char c \<or> is_whitespace c)
           (take (length t - length BEGIN_CERTIFICATE - length END_CERTIFICATE)
              (drop (length BEGIN_CERTIFICATE) t)))"

section \<open>The languages of regular expressions\<close>

definition rx_conc :: "jsstring set \<Rightarrow> jsstring set \<Rightarrow> jsstring set" where
  "rx_conc A B = {u @ v | u v. u \<in> A \<and> v \<in> B}"

inductive_set rx_star :: "jsstring set \<Rightarrow> jsstring set" for A :: "jsstring set" where
  rx_star_empty: "[] \<in> rx_star A"
| rx_star_more: "u \<in> A \<Longrightarrow> v \<in> rx_star A \<Longrightarrow> u @ v \<in> rx_star A"

fun lang :: "rx \<Rightarrow> jsstring set" where
  "lang Never = {}"
| "lang Eps = {[]}"
| "lang (Atom p) = {[c] | c. p c}"
| "lang (Seq r s) = rx_conc (lang r) (lang s)"
| "lang (Alt r s) = lang r \<union> lang s"
| "lang (Star r) = rx_star (lang r)"

text \<open>The language of \<open>k8s_label_rx\<close>, in terms of its character classes.\<close>

definition label_ok :: "jsstring \<Rightarrow> bool" where
  "label_ok l = (l \<noteq> [] \<and> (\<forall>c \<in> set l. hyphen_lower_alnum c) \<and> lower_alnum (hd l) \<and> lower_alnum (last l))"

section \<open>Properties of the retry loop\<close>

lemma retry_loop_exhausted:
  "\<not> less_maxAttempts attempt (maxAttempts opts) \<Longrightarrow>
   retry_loop A operation opts random attempt errors st = (Normal (Err (failure_message opts errors)), st)"
  by (simp add: retry_loop.simps)

lemma not_success_cases:
  "\<not> is_success out \<Longrightarrow> (\<exists>e. out = Returned (Err e)) \<or> (\<exists>x. out = Thrown x)"
  by (cases out rule: is_success.cases) auto

lemma retry_loop_success_step:
  assumes "less_maxAttempts attempt (maxAttempts opts)"
    and "fst (operation (world st)) = Returned (Ok v)"
  shows "retry_loop A operation opts random attempt errors st =
     (Normal (Ok v), st\<lparr>world := snd (operation (world st)), calls := Suc (calls st)\<rparr>)"
  using assms
  by (cases "operation (world st)")
     (simp add: retry_loop.simps [of A operation opts random attempt] Let_def)

lemma retry_loop_recorded_step:
  assumes "less_maxAttempts attempt (maxAttempts opts)"
    and "\<not> is_success (fst (operation (world st)))"
    and "attempt_errorMessage (fst (operation (world st))) = Normal msg"
  shows "retry_loop A operation opts random attempt errors st =
     (let st1 = st\<lparr>world := snd (operation (world st)), calls := Suc (calls st)\<rparr>;
          errors1 = errors @ [attempt_line attempt msg]
      in if isLastAttempt attempt (maxAttempts opts)
         then (Normal (Err (failure_message opts errors1)), st1)
         else retry_loop A operation opts random (Suc attempt) errors1
                (delay_and_sleep A attempt opts random st1))"
proof -
  obtain out w where ow: "operation (world st) = (out, w)" by (cases "operation (world st)")
  with assms(2) have "\<not> is_success out" by simp
  then consider e where "out = Returned (Err e)" | x where "out = Thrown x"
    using not_success_cases by blast
  then show ?thesis
  proof cases
    case 1
    with assms(1,3) ow show ?thesis
      by (cases "returned_errorMessage e")
         (simp_all add: retry_loop.simps [of A operation opts random attempt] Let_def)
  next
    case 2
    with assms(1,3) ow show ?thesis
      by (simp add: retry_loop.simps [of A operation opts random attempt] Let_def)
  qed
qed

lemma retry_loop_rejecting_step:
  assumes "less_maxAttempts attempt (maxAttempts opts)"
    and "\<not> is_success (fst (operation (world st)))"
    and "attempt_errorMessage (fst (operation (world st))) = Throw x"
  shows "retry_loop A operation opts random attempt errors st =
     (Throw x, st\<lparr>world := snd (operation (world st)), calls := Suc (calls st)\<rparr>)"
proof -
  obtain out w where ow: "operation (world st) = (out, w)" by (cases "operation (world st)")
  with assms(2) have "\<not> is_success out" by simp
  then consider e where "out = Returned (Err e)" | y where "out = Thrown y"
    using not_success_cases by blast
  then show ?thesis
  proof cases
    case 1
    with assms(1,3) ow show ?thesis
      by (cases "returned_errorMessage e")
         (simp_all add: retry_loop.simps [of A operation opts random attempt] Let_def)
  next
    case 2
    with assms(1,3) ow show ?thesis
      by (simp add: retry_loop.simps [of A operation opts random attempt] Let_def)
  qed
qed

lemma delay_and_sleep_fields [simp]:
  "world (delay_and_sleep A a opts random st) = world st"
  "calls (delay_and_sleep A a opts random st) = calls st"
  "length (sleeps (delay_and_sleep A a opts random st)) = Suc (length (sleeps st))"
  by (simp_all add: delay_and_sleep_def Let_def)

lemma op_trace_length [simp]: "length (op_trace operation w n) = n"
  by (induction n arbitrary: w) simp_all

lemma op_trace_Suc_end:
  "op_trace operation w (Suc m) = op_trace operation w m @ [fst (operation (op_world operation w m))]"
  by (induction m arbitrary: w) simp_all

lemma retry_loop_all_recorded:
  assumes "map attempt_errorMessage (op_trace operation (world st) n) = map Normal msgs"
    and "\<forall>out \<in> set (op_trace operation (world st) n). \<not> is_success out"
    and "maxAttempts opts = Some (int a + int n)"
  shows "fst (retry_loop A operation opts random a errors st) =
           Normal (Err (failure_message opts (errors @ attempt_lines a msgs)))
       \<and> calls (snd (retry_loop A operation opts random a errors st)) = calls st + n
       \<and> world (snd (retry_loop A operation opts random a errors st)) = op_world operation (world st) n
       \<and> length (sleeps (snd (retry_loop A operation opts random a errors st))) = length (sleeps st) + (n - 1)"
  using assms
proof (induction n arbitrary: a errors st msgs)
  case 0
  then show ?case by (simp add: retry_loop_exhausted less_maxAttempts_def)
next
  case (Suc n)
  from Suc.prems(1) obtain msg msgs' where msgs: "msgs = msg # msgs'"
    and msg: "attempt_errorMessage (fst (operation (world st))) = Normal msg"
    and rest: "map attempt_errorMessage (op_trace operation (snd (operation (world st))) n) = map Normal msgs'"
    by (cases msgs) auto
  let ?st1 = "st\<lparr>world := snd (operation (world st)), calls := Suc (calls st)\<rparr>"
  let ?errors1 = "errors @ [attempt_line a msg]"
  from Suc.prems have lt: "less_maxAttempts a (maxAttempts opts)"
    and nf: "\<not> is_success (fst (operation (world st)))"
    by (auto simp: less_maxAttempts_def)
  note step = retry_loop_recorded_step [where operation = operation and st = st, OF lt nf msg]
  show ?case
  proof (cases "n = 0")
    case True
    with Suc.prems(3) have "isLastAttempt a (maxAttempts opts)" by (simp add: isLastAttempt_def)
    moreover from True rest have "msgs' = []" by simp
    ultimately show ?thesis using True msgs by (simp add: step Let_def)
  next
    case False
    with Suc.prems(3) have ne: "\<not> isLastAttempt a (maxAttempts opts)" by (simp add: isLastAttempt_def)
    let ?st2 = "delay_and_sleep A a opts random ?st1"
    have tr: "map attempt_errorMessage (op_trace operation (world ?st2) n) = map Normal msgs'"
      using rest by simp
    have ns: "\<forall>out \<in> set (op_trace operation (world ?st2) n). \<not> is_success out"
      using Suc.prems(2) by simp
    have mx: "maxAttempts opts = Some (int (Suc a) + int n)" using Suc.prems(3) by simp
    from Suc.IH [OF tr ns mx, of ?errors1] False msgs show ?thesis
      by (simp add: step Let_def ne)
  qed
qed

lemma retry_loop_first_success:
  assumes "op_trace operation (world st) (Suc m) = fs @ [Returned (Ok v)]"
    and "\<forall>out \<in> set fs. \<not> is_success out \<and> (\<exists>msg. attempt_errorMessage out = Normal msg)"
    and "maxAttempts opts = Some N" and "int a + int (Suc m) \<le> N"
  shows "fst (retry_loop A operation opts random a errors st) = Normal (Ok v)
       \<and> calls (snd (retry_loop A operation opts random a errors st)) = calls st + Suc m
       \<and> world (snd (retry_loop A operation opts random a errors st)) = op_world operation (world st) (Suc m)
       \<and> length (sleeps (snd (retry_loop A operation opts random a errors st))) = length (sleeps st) + m"
  using assms
proof (induction m arbitrary: a errors st fs)
  case 0
  then have "fst (operation (world st)) = Returned (Ok v)" and "less_maxAttempts a (maxAttempts opts)"
    by (cases fs; simp add: less_maxAttempts_def)+
  then show ?case by (simp add: retry_loop_success_step)
next
  case (Suc m)
  from Suc.prems(1) obtain f fs' where fs: "fs = f # fs'" by (cases fs) auto
  with Suc.prems have f: "fst (operation (world st)) = f"
    and nf: "\<not> is_success (fst (operation (world st)))"
    and rest: "op_trace operation (snd (operation (world st))) (Suc m) = fs' @ [Returned (Ok v)]"
    and fs': "\<forall>out \<in> set fs'. \<not> is_success out \<and> (\<exists>msg. attempt_errorMessage out = Normal msg)"
    by auto
  from Suc.prems(2) fs f obtain msg where msg: "attempt_errorMessage (fst (operation (world st))) = Normal msg"
    by auto
  from Suc.prems(3,4) have lt: "less_maxAttempts a (maxAttempts opts)"
    and ne: "\<not> isLastAttempt a (maxAttempts opts)"
    and le: "int (Suc a) + int (Suc m) \<le> N"
    by (auto simp: less_maxAttempts_def isLastAttempt_def)
  let ?st1 = "st\<lparr>world := snd (operation (world st)), calls := Suc (calls st)\<rparr>"
  let ?st2 = "delay_and_sleep A a opts random ?st1"
  let ?errors1 = "errors @ [attempt_line a msg]"
  have rest2: "op_trace operation (world ?st2) (Suc m) = fs' @ [Returned (Ok v)]"
    using rest by simp
  from Suc.IH [OF rest2 fs' Suc.prems(3) le, of ?errors1] show ?case
    by (simp add: retry_loop_recorded_step [where operation = operation and st = st, OF lt nf msg] Let_def ne)
qed

lemma attempt_lines_map:
  "attempt_lines a msgs = map (\<lambda>i. attempt_line (a + i) (msgs ! i)) [0..<length msgs]"
proof (induction msgs arbitrary: a)
  case Nil
  then show ?case by simp
next
  case (Cons msg msgs)
  have "[0..<length (msg # msgs)] = 0 # map Suc [0..<length msgs]"
    by (simp add: upt_conv_Cons map_Suc_upt del: upt_Suc)
  then show ?case by (simp add: Cons.IH comp_def del: upt_Suc)
qed

lemma returned_errorMessage_String: "returned_errorMessage e = String_js e"
  by (cases e) (simp_all add: returned_errorMessage_def)

lemma fault_has_text_message: "fault_has_text x \<Longrightarrow> \<exists>msg. thrown_errorMessage x = Normal msg"
  by (cases "String_js x") (auto simp: fault_has_text_def thrown_errorMessage_def)

lemma attempt_has_text_recorded:
  assumes "attempt_has_text out"
  shows "\<not> is_success out \<and> (\<exists>msg. attempt_errorMessage out = Normal msg)"
proof (cases out rule: attempt_has_text.cases)
  case (1 e)
  show ?thesis
  proof (cases "String_js e")
    case (Normal s)
    with 1 show ?thesis by (simp add: returned_errorMessage_String)
  next
    case (Throw x)
    with 1 assms have "fault_has_text x" by simp
    with 1 Throw show ?thesis by (simp add: returned_errorMessage_String fault_has_text_message)
  qed
next
  case (2 x)
  with assms show ?thesis by (simp add: fault_has_text_message)
next
  case (3 v)
  with assms show ?thesis by simp
qed

lemma spread_maxAttempts [simp]:
  "maxAttempts (spread_options d (options\<lparr>o_maxAttempts := Given n\<rparr>)) = Some n"
  by (simp add: spread_options_def spread_property_def)

text \<open>
  When each of the first \<open>N\<close> invocations returns the failure variant with an error that
  \<open>String()\<close> converts (a string is converted to itself), \<open>retryWithBackoff\<close> with
  \<open>maxAttempts: N\<close> invokes the operation exactly \<open>N\<close> times and returns the failure variant
  whose message is the header, a line feed, and the lines \<open>Attempt i: \<close> followed by the
  conversion of the error of attempt \<open>i\<close>, joined by line feeds.
\<close>
lemma retryWithBackoff_all_failures:
  fixes A :: "'n arithmetic" and w :: 's
  assumes "op_trace operation w N = map (\<lambda>e. Returned (Err e)) es"
    and "map String_js es = map Normal msgs"
  shows "fst (retryWithBackoff A operation (options\<lparr>o_maxAttempts := Given (int N)\<rparr>) random w) =
           Normal (Err (js ''Operation failed after '' @ Number_toString (int N) @ js '' attempts:''
                @ newline
                @ join newline
                    (map (\<lambda>i. js ''Attempt '' @ Number_toString (int i + 1) @ js '': '' @ msgs ! i)
                       [0..<N])))
       \<and> calls (snd (retryWithBackoff A operation (options\<lparr>o_maxAttempts := Given (int N)\<rparr>) random w)) = N"
proof -
  let ?opts = "spread_options (DEFAULT_RETRY_OPTIONS A) (options\<lparr>o_maxAttempts := Given (int N)\<rparr>)"
  let ?st = "\<lparr>world = w, calls = 0, sleeps = [], draws = 0\<rparr> :: ('s, 'n) run"
  have "length es = N" using assms(1) by (metis length_map op_trace_length)
  moreover have "length msgs = length es" using assms(2) by (metis length_map)
  ultimately have len: "length msgs = N" by simp
  have "map attempt_errorMessage (map (\<lambda>e. Returned (Err e)) es) = map String_js es"
  proof (rule nth_equalityI)
    show "length (map attempt_errorMessage (map (\<lambda>e. Returned (Err e)) es)) = length (map String_js es)"
      by simp
  next
    fix i assume "i < length (map attempt_errorMessage (map (\<lambda>e. Returned (Err e)) es))"
    then have i: "i < length es" by simp
    then have "map String_js es ! i = map Normal msgs ! i" using assms(2) by simp
    with i \<open>length msgs = length es\<close> have "String_js (es ! i) = Normal (msgs ! i)" by simp
    with i show "map attempt_errorMessage (map (\<lambda>e. Returned (Err e)) es) ! i = map String_js es ! i"
      by (simp add: returned_errorMessage_String)
  qed
  with assms have tr: "map attempt_errorMessage (op_trace operation (world ?st) N) = map Normal msgs"
    by simp
  have ns: "\<forall>out \<in> set (op_trace operation (world ?st) N). \<not> is_success out"
    using assms(1) by auto
  have mx: "maxAttempts ?opts = Some (int 0 + int N)" by simp
  from retry_loop_all_recorded [OF tr ns mx, of A random "[]"] len show ?thesis
    by (simp add: retryWithBackoff_def Let_def failure_message_def attempt_lines_map attempt_line_def
          maxAttempts_toString_def)
qed

text \<open>
  When the \<open>k\<close>-th invocation is the first to return the success variant, \<open>k \<le> N\<close>, and the
  attempts before it have a text, \<open>retryWithBackoff\<close> returns that success value after exactly
  \<open>k\<close> invocations and \<open>k - 1\<close> sleeps.
\<close>
lemma retryWithBackoff_first_success:
  fixes A :: "'n arithmetic" and w :: 's
  assumes "1 \<le> k" and "k \<le> N"
    and "\<forall>out \<in> set (op_trace operation w (k - 1)). attempt_has_text out"
    and "op_trace operation w k ! (k - 1) = Returned (Ok v)"
  shows "fst (retryWithBackoff A operation (options\<lparr>o_maxAttempts := Given (int N)\<rparr>) random w) = Normal (Ok v)
       \<and> calls (snd (retryWithBackoff A operation (options\<lparr>o_maxAttempts := Given (int N)\<rparr>) random w)) = k
       \<and> length (sleeps (snd (retryWithBackoff A operation (options\<lparr>o_maxAttempts := Given (int N)\<rparr>) random w))) = k - 1
       \<and> world (snd (retryWithBackoff A operation (options\<lparr>o_maxAttempts := Given (int N)\<rparr>) random w)) = op_world operation w k"
proof -
  from assms(1) obtain m where k: "k = Suc m" by (cases k) auto
  let ?opts = "spread_options (DEFAULT_RETRY_OPTIONS A) (options\<lparr>o_maxAttempts := Given (int N)\<rparr>)"
  let ?st = "\<lparr>world = w, calls = 0, sleeps = [], draws = 0\<rparr> :: ('s, 'n) run"
  have "op_trace operation w (Suc m) ! m = Returned (Ok v)"
    using assms(4) by (simp add: k del: op_trace.simps)
  then have "fst (operation (op_world operation w m)) = Returned (Ok v)"
    by (simp add: op_trace_Suc_end nth_append del: op_trace.simps)
  then have tr: "op_trace operation (world ?st) (Suc m) = op_trace operation w m @ [Returned (Ok v)]"
    by (simp add: op_trace_Suc_end del: op_trace.simps)
  have nf: "\<forall>out \<in> set (op_trace operation w m). \<not> is_success out \<and> (\<exists>msg. attempt_errorMessage out = Normal msg)"
    using assms(3) attempt_has_text_recorded by (auto simp: k)
  have mx: "maxAttempts ?opts = Some (int N)" by simp
  have le: "int 0 + int (Suc m) \<le> int N" using assms(2) by (simp add: k)
  from retry_loop_first_success [OF tr nf mx le, of A random "[]"] show ?thesis
    by (simp add: retryWithBackoff_def Let_def k)
qed

lemma retryWithBackoff_all_failures_example:
  "fst (retryWithBackoff A
          (\<lambda>n::nat. (Returned (Err (if n = 0 then JString (js ''boom'') else JError (js ''Error'') (js ''late''))) :: unit outcome, Suc n))
          (options\<lparr>o_maxAttempts := Given (int 2)\<rparr>) random 0)
     = Normal (Err (js ''Operation failed after 2 attempts:'' @ newline @ js ''Attempt 1: boom'' @ newline
            @ js ''Attempt 2: Error: late''))"
  using retryWithBackoff_all_failures [of
      "\<lambda>n::nat. (Returned (Err (if n = 0 then JString (js ''boom'') else JError (js ''Error'') (js ''late''))) :: unit outcome, Suc n)"
      0 2 "[JString (js ''boom''), JError (js ''Error'') (js ''late'')]"
      "[js ''boom'', js ''Error: late'']" A options random]
  by (simp add: numeral_2_eq_2 Number_toString_def nat_toString.simps digit_def js_def ch_def newline_def)

lemma retryWithBackoff_first_success_example:
  "fst (retryWithBackoff A
          (\<lambda>n::nat. (if n < 2 then Returned (Err (JString (js ''error''))) else Returned (Ok (42::int)), Suc n))
          (options\<lparr>o_maxAttempts := Given (int 3)\<rparr>) random 0) = Normal (Ok 42)
   \<and> calls (snd (retryWithBackoff A
          (\<lambda>n::nat. (if n < 2 then Returned (Err (JString (js ''error''))) else Returned (Ok (42::int)), Suc n))
          (options\<lparr>o_maxAttempts := Given (int 3)\<rparr>) random 0)) = 3"
  using retryWithBackoff_first_success [of 3 3
      "\<lambda>n::nat. (if n < 2 then Returned (Err (JString (js ''error''))) else Returned (Ok (42::int)), Suc n)"
      0 42 A options random]
  by (simp add: numeral_2_eq_2 numeral_3_eq_3)

lemma calculateDelay_isRetryable [simp]:
  "calculateDelay A a (opts\<lparr>isRetryable := p\<rparr>) r = calculateDelay A a opts r"
  by (simp add: calculateDelay_def)

lemma delay_and_sleep_isRetryable [simp]:
  "delay_and_sleep A a (opts\<lparr>isRetryable := p\<rparr>) random st = delay_and_sleep A a opts random st"
  by (simp add: delay_and_sleep_def)

lemma failure_message_isRetryable [simp]:
  "failure_message (opts\<lparr>isRetryable := p\<rparr>) errors = failure_message opts errors"
  by (simp add: failure_message_def)

lemma retry_loop_isRetryable:
  "retry_loop A operation (opts\<lparr>isRetryable := p\<rparr>) random a errors st =
   retry_loop A operation opts random a errors st"
proof (induction "nat ((case maxAttempts opts of Some n \<Rightarrow> n | None \<Rightarrow> 0) - int a)" arbitrary: a errors st)
  case 0
  then have "\<not> less_maxAttempts a (maxAttempts opts)"
    by (simp add: less_maxAttempts_def split: option.splits)
  then show ?case by (simp add: retry_loop_exhausted)
next
  case (Suc n)
  then have IH: "\<And>errors st. retry_loop A operation (opts\<lparr>isRetryable := p\<rparr>) random (Suc a) errors st =
      retry_loop A operation opts random (Suc a) errors st"
    by simp
  show ?case
    by (simp add: retry_loop.simps [of A operation _ random a] IH Let_def
          split: prod.split outcome.split result.split completion.split)
qed

lemma spread_options_isRetryable:
  "spread_options d (options\<lparr>o_isRetryable := q\<rparr>) =
   (spread_options d options)\<lparr>isRetryable := spread_property (isRetryable d) q\<rparr>"
  by (simp add: spread_options_def)

text \<open>
  C3. The \<open>isRetryable\<close> option has no influence: two calls whose options differ only in
  \<open>isRetryable\<close> (two predicates, a predicate and \<open>undefined\<close>, or a predicate and none) give
  the same completion and the same run state, hence the same number of invocations of the
  operation and the same delays.
\<close>
theorem retryWithBackoff_ignores_isRetryable:
  "retryWithBackoff A operation (options\<lparr>o_isRetryable := q1\<rparr>) random w =
   retryWithBackoff A operation (options\<lparr>o_isRetryable := q2\<rparr>) random w"
  by (simp add: retryWithBackoff_def spread_options_isRetryable retry_loop_isRetryable)

text \<open>
  C10. With \<open>maxAttempts: 0\<close> the operation is never invoked, nothing is slept, and the result
  is the failure variant whose message is \<open>Operation failed after 0 attempts:\<close> followed by a
  line feed and no attempt lines.
\<close>
theorem retryWithBackoff_zero_attempts:
  "retryWithBackoff A operation (options\<lparr>o_maxAttempts := Given 0\<rparr>) random w =
     (Normal (Err (js ''Operation failed after 0 attempts:'' @ newline)),
      \<lparr>world = w, calls = 0, sleeps = [], draws = 0\<rparr>)"
  by (simp add: retryWithBackoff_def retry_loop_exhausted failure_message_def Number_toString_def
        nat_toString.simps digit_def js_def ch_def less_maxAttempts_def maxAttempts_toString_def)

lemma retry_loop_first_rejects:
  assumes "less_maxAttempts 0 (maxAttempts opts)"
    and "\<not> is_success (fst (operation w))"
    and "attempt_errorMessage (fst (operation w)) = Throw x"
  shows "retry_loop A operation opts random 0 [] \<lparr>world = w, calls = 0, sleeps = [], draws = 0\<rparr> =
     (Throw x, \<lparr>world = snd (operation w), calls = 1, sleeps = [], draws = 0\<rparr>)"
  using retry_loop_rejecting_step [of 0 opts operation "\<lparr>world = w, calls = 0, sleeps = [], draws = 0\<rparr>" x A random "[]"]
    assms by simp

text \<open>
  C1. An operation that returns the failure variant on every invocation, with an error whose
  \<open>toString\<close> throws \<open>Object.create(null)\<close>: with \<open>maxAttempts: 3\<close> the operation is invoked
  once, not three times, and no failure variant is returned. \<open>String(result.error)\<close> throws
  in the \<open>try\<close> block, the \<open>catch\<close> block evaluates \<open>String(error)\<close> on the object thrown, that
  throws a \<open>TypeError\<close>, and the promise is rejected with it.
\<close>
theorem retryWithBackoff_rejects_unconvertible_error:
  "list_all is_failure (op_trace (\<lambda>w. (Returned (Err (JThrowing Object_create_null)), w)) w 3)
   \<and> retryWithBackoff A (\<lambda>w. (Returned (Err (JThrowing Object_create_null)), w))
         (options\<lparr>o_maxAttempts := Given 3\<rparr>) random w
       = (Throw no_primitive_TypeError, \<lparr>world = w, calls = 1, sleeps = [], draws = 0\<rparr>)"
proof -
  have "retry_loop A (\<lambda>w. (Returned (Err (JThrowing Object_create_null)), w))
          (spread_options (DEFAULT_RETRY_OPTIONS A) (options\<lparr>o_maxAttempts := Given 3\<rparr>)) random 0 []
          \<lparr>world = w, calls = 0, sleeps = [], draws = 0\<rparr>
        = (Throw no_primitive_TypeError, \<lparr>world = w, calls = 1, sleeps = [], draws = 0\<rparr>)"
    by (simp add: retry_loop_first_rejects less_maxAttempts_def returned_errorMessage_def
          thrown_errorMessage_def Object_create_null_def no_primitive_TypeError_def)
  then show ?thesis by (simp add: retryWithBackoff_def numeral_3_eq_3)
qed

text \<open>
  C2. An operation that throws \<open>Object.create(null)\<close> on its first invocation and returns the
  success variant on its second, so for the first time on attempt 2: with \<open>maxAttempts: 3\<close>
  the operation is invoked once, not twice, and the success variant is not returned. The
  \<open>catch\<close> block evaluates \<open>String(error)\<close>, that throws a \<open>TypeError\<close>, and the promise is
  rejected with it.
\<close>
theorem retryWithBackoff_rejects_before_success:
  "op_trace (\<lambda>n::nat. (if n = 0 then Thrown Object_create_null else Returned (Ok v), Suc n)) 0 2
       = [Thrown Object_create_null, Returned (Ok v)]
   \<and> retryWithBackoff A (\<lambda>n::nat. (if n = 0 then Thrown Object_create_null else Returned (Ok v), Suc n))
         (options\<lparr>o_maxAttempts := Given 3\<rparr>) random 0
       = (Throw no_primitive_TypeError, \<lparr>world = 1, calls = 1, sleeps = [], draws = 0\<rparr>)"
proof -
  have "retry_loop A (\<lambda>n::nat. (if n = 0 then Thrown Object_create_null else Returned (Ok v), Suc n))
          (spread_options (DEFAULT_RETRY_OPTIONS A) (options\<lparr>o_maxAttempts := Given 3\<rparr>)) random 0 []
          \<lparr>world = 0, calls = 0, sleeps = [], draws = 0\<rparr>
        = (Throw no_primitive_TypeError, \<lparr>world = 1, calls = 1, sleeps = [], draws = 0\<rparr>)"
    by (simp add: retry_loop_first_rejects less_maxAttempts_def
          thrown_errorMessage_def Object_create_null_def no_primitive_TypeError_def)
  then show ?thesis by (simp add: retryWithBackoff_def numeral_2_eq_2)
qed

section \<open>Properties of types.ts\<close>

text \<open>
  \<open>tryCatch\<close> and \<open>tryCatchAsync\<close> return \<open>Ok\<close> of the callable's result when it returns
  normally, \<open>Err\<close> of a thrown \<open>Error\<close> itself, and \<open>Err\<close> of a new \<open>Error\<close> whose message is
  the conversion of the thrown value when \<open>String()\<close> converts it; they throw what \<open>String()\<close>
  throws otherwise.
\<close>
lemma tryCatch_faults_with_text:
  "(fst (fn s) = Normal v \<longrightarrow>
      tryCatch fn s = (Normal (Ok v), snd (fn s)) \<and> tryCatchAsync fn s = (Normal (Ok v), snd (fn s)))
   \<and> (fst (fn s) = Throw e \<and> instanceof_Error e \<longrightarrow>
      tryCatch fn s = (Normal (Err e), snd (fn s)) \<and> tryCatchAsync fn s = (Normal (Err e), snd (fn s)))
   \<and> (fst (fn s) = Throw e \<and> \<not> instanceof_Error e \<and> String_js e = Normal msg \<longrightarrow>
      tryCatch fn s = (Normal (Err (JError (js ''Error'') msg)), snd (fn s))
      \<and> tryCatchAsync fn s = (Normal (Err (JError (js ''Error'') msg)), snd (fn s)))
   \<and> (fst (fn s) = Throw e \<and> \<not> instanceof_Error e \<and> String_js e = Throw x \<longrightarrow>
      tryCatch fn s = (Throw x, snd (fn s)) \<and> tryCatchAsync fn s = (Throw x, snd (fn s)))"
  by (cases "fn s"; cases "fst (fn s)") (simp_all add: tryCatch_def tryCatchAsync_def new_Error_def)

text \<open>
  C8. A callable that throws \<open>Object.create(null)\<close>: \<open>tryCatch\<close> and \<open>tryCatchAsync\<close> do not
  return an \<open>Err\<close>. \<open>String(error)\<close> in the \<open>catch\<close> block throws a \<open>TypeError\<close>, which
  propagates out of \<open>tryCatch\<close> and rejects the promise of \<open>tryCatchAsync\<close>.
\<close>
theorem tryCatch_rethrows_unconvertible_fault:
  "tryCatch (\<lambda>s. (Throw Object_create_null, s)) s = (Throw no_primitive_TypeError, s)
   \<and> tryCatchAsync (\<lambda>s. (Throw Object_create_null, s)) s = (Throw no_primitive_TypeError, s)"
  by (simp add: tryCatch_def tryCatchAsync_def Object_create_null_def no_primitive_TypeError_def)

text \<open>
  C9. Each branded-type constructor returns its argument as it is, for every string, without
  any validation, and so does \<open>unwrap\<close>; unwrapping a branded value gives the string back.
\<close>
theorem branded_constructors_identity:
  "PlaintextValue s = s \<and> EncryptedValue s = s \<and> Base64String s = s \<and> PEMCertificate s = s
   \<and> unwrap s = s
   \<and> unwrap (PlaintextValue s) = s \<and> unwrap (EncryptedValue s) = s
   \<and> unwrap (Base64String s) = s \<and> unwrap (PEMCertificate s) = s"
  by (simp add: PlaintextValue_def EncryptedValue_def Base64String_def PEMCertificate_def unwrap_def)

section \<open>Properties of the validators\<close>

lemma rx_conc_iff: "w \<in> rx_conc A B \<longleftrightarrow> (\<exists>u v. w = u @ v \<and> u \<in> A \<and> v \<in> B)"
  by (auto simp: rx_conc_def)

lemma rx_conc_Cons:
  "c # s \<in> rx_conc A B \<longleftrightarrow>
     ([] \<in> A \<and> c # s \<in> B) \<or> (\<exists>u v. s = u @ v \<and> c # u \<in> A \<and> v \<in> B)"
proof
  assume "c # s \<in> rx_conc A B"
  then obtain u v where uv: "c # s = u @ v" "u \<in> A" "v \<in> B" by (auto simp: rx_conc_iff)
  show "([] \<in> A \<and> c # s \<in> B) \<or> (\<exists>u v. s = u @ v \<and> c # u \<in> A \<and> v \<in> B)"
  proof (cases u)
    case Nil
    with uv show ?thesis by simp
  next
    case (Cons a u')
    with uv have "s = u' @ v" "c # u' \<in> A" by auto
    with uv(3) show ?thesis by blast
  qed
next
  assume "([] \<in> A \<and> c # s \<in> B) \<or> (\<exists>u v. s = u @ v \<and> c # u \<in> A \<and> v \<in> B)"
  then show "c # s \<in> rx_conc A B"
  proof
    assume "[] \<in> A \<and> c # s \<in> B"
    then have "[] @ (c # s) \<in> rx_conc A B" unfolding rx_conc_iff by blast
    then show ?thesis by simp
  next
    assume "\<exists>u v. s = u @ v \<and> c # u \<in> A \<and> v \<in> B"
    then obtain u v where "s = u @ v" "c # u \<in> A" "v \<in> B" by blast
    then have "(c # u) @ v \<in> rx_conc A B" unfolding rx_conc_iff by blast
    with \<open>s = u @ v\<close> show ?thesis by simp
  qed
qed

lemma rx_star_Cons_split:
  assumes "x \<in> rx_star A" and "x = c # s"
  shows "\<exists>u v. s = u @ v \<and> c # u \<in> A \<and> v \<in> rx_star A"
  using assms
proof (induction arbitrary: s rule: rx_star.induct)
  case rx_star_empty
  then show ?case by simp
next
  case (rx_star_more u v)
  show ?case
  proof (cases u)
    case Nil
    with rx_star_more show ?thesis by simp
  next
    case (Cons a u')
    with rx_star_more.prems have "s = u' @ v" "a = c" by auto
    with Cons rx_star_more.hyps show ?thesis by blast
  qed
qed

lemma rx_star_Cons:
  "c # s \<in> rx_star A \<longleftrightarrow> (\<exists>u v. s = u @ v \<and> c # u \<in> A \<and> v \<in> rx_star A)"
proof
  assume "c # s \<in> rx_star A"
  then show "\<exists>u v. s = u @ v \<and> c # u \<in> A \<and> v \<in> rx_star A"
    by (rule rx_star_Cons_split) simp
next
  assume "\<exists>u v. s = u @ v \<and> c # u \<in> A \<and> v \<in> rx_star A"
  then obtain u v where "s = u @ v" "c # u \<in> A" "v \<in> rx_star A" by blast
  then have "(c # u) @ v \<in> rx_star A" by (blast intro: rx_star_more)
  with \<open>s = u @ v\<close> show "c # s \<in> rx_star A" by simp
qed

lemma rx_conc_Nil: "[] \<in> rx_conc A B \<longleftrightarrow> [] \<in> A \<and> [] \<in> B"
  by (simp add: rx_conc_iff)

lemma nullable_lang: "nullable r \<longleftrightarrow> [] \<in> lang r"
  by (induction r) (simp_all add: rx_conc_Nil rx_star_empty)

lemma deriv_lang: "s \<in> lang (deriv c r) \<longleftrightarrow> c # s \<in> lang r"
proof (induction r arbitrary: s)
  case (Seq r1 r2)
  then show ?case
    by (auto simp add: rx_conc_Cons [of c] nullable_lang rx_conc_iff [of s])
next
  case (Star r)
  then show ?case
    by (simp add: rx_star_Cons [of c] rx_conc_iff [of s])
qed simp_all

lemma rx_test_lang: "rx_test r s \<longleftrightarrow> s \<in> lang r"
proof -
  have "nullable (foldl (\<lambda>r c. deriv c r) r s) \<longleftrightarrow> s \<in> lang r" for r
    by (induction s arbitrary: r) (simp_all add: nullable_lang deriv_lang)
  then show ?thesis by (simp add: rx_test_def)
qed

lemma lang_Star_Atom: "lang (Star (Atom p)) = {s. \<forall>c \<in> set s. p c}"
proof (intro set_eqI iffI)
  fix s assume "s \<in> lang (Star (Atom p))"
  then have "s \<in> rx_star {[c] | c. p c}" by simp
  then have "\<forall>c \<in> set s. p c"
  proof (induction rule: rx_star.induct)
    case rx_star_empty
    show ?case by simp
  next
    case (rx_star_more u v)
    from rx_star_more.hyps(1) obtain c where "u = [c]" "p c" by blast
    with rx_star_more.IH show ?case by simp
  qed
  then show "s \<in> {s. \<forall>c \<in> set s. p c}" by simp
next
  fix s assume "s \<in> {s. \<forall>c \<in> set s. p c}"
  then have "\<forall>c \<in> set s. p c" by simp
  then have "s \<in> rx_star {[c] | c. p c}"
  proof (induction s)
    case Nil
    then show ?case by (simp add: rx_star_empty)
  next
    case (Cons a s)
    then have "[a] \<in> {[c] | c. p c}" "s \<in> rx_star {[c] | c. p c}" by simp_all
    then have "[a] @ s \<in> rx_star {[c] | c. p c}" by (rule rx_star_more)
    then show ?case by simp
  qed
  then show "s \<in> lang (Star (Atom p))" by simp
qed

lemma rx_star_chars: "rx_star {[c] | c. p c} = {s. \<forall>c \<in> set s. p c}"
  using lang_Star_Atom [of p] by simp

lemma lang_Opt: "lang (Opt r) = insert [] (lang r)"
  unfolding Opt_def by (simp add: Un_commute)

lemma lang_Plus: "lang (Plus r) = rx_conc (lang r) (rx_star (lang r))"
  by (simp add: Plus_def)

lemma rx_conc_singletons: "rx_conc {u} {v} = {u @ v}"
  unfolding rx_conc_def by simp

lemma lang_Lit: "lang (Lit s) = {s}"
proof (induction s)
  case Nil
  show ?case by simp
next
  case (Cons c s)
  then show ?case by (simp add: rx_conc_singletons)
qed

lemma lower_alnum_spec: "lower_alnum c = spec_lower_alnum c"
  unfolding lower_alnum_def spec_lower_alnum_def
  by (simp add: js_def ch_def word_le_nat_alt word_unat_eq_iff) arith

lemma lower_alnum_not_whitespace: "lower_alnum c \<Longrightarrow> \<not> is_whitespace c"
  unfolding lower_alnum_def is_whitespace_def
  by (simp add: ch_def word_le_nat_alt word_unat_eq_iff) arith

lemma dot_not_hyphen_lower_alnum: "\<not> hyphen_lower_alnum (ch CHR ''.'')"
  by (simp add: hyphen_lower_alnum_def lower_alnum_def ch_def)

lemma split_on_no_separator: "d \<notin> set l \<Longrightarrow> split_on d l = [l]"
  by (induction l) auto

lemma split_on_first_piece: "d \<notin> set l \<Longrightarrow> split_on d (l @ d # rest) = l # split_on d rest"
  by (induction l) auto

lemma split_on_decompose:
  "(d \<notin> set s \<and> split_on d s = [s])
   \<or> (\<exists>l rest. s = l @ d # rest \<and> d \<notin> set l \<and> split_on d s = l # split_on d rest)"
proof (cases "d \<in> set s")
  case False
  then show ?thesis by (simp add: split_on_no_separator)
next
  case True
  then obtain l rest where "s = l @ d # rest" "d \<notin> set l"
    by (auto dest: split_list_first)
  then show ?thesis using split_on_first_piece [of d l rest] by blast
qed

lemma lang_k8s_label: "l \<in> lang k8s_label_rx \<longleftrightarrow> label_ok l"
proof
  assume "l \<in> lang k8s_label_rx"
  then obtain u v where l: "l = u @ v" and u: "u \<in> lang (Atom lower_alnum)"
    and v: "v = [] \<or> v \<in> rx_conc (lang (Star (Atom hyphen_lower_alnum))) (lang (Atom lower_alnum))"
    unfolding k8s_label_rx_def lang.simps(4) lang_Opt rx_conc_iff [of l] by blast
  from u obtain a where a: "u = [a]" "lower_alnum a" by auto
  from v show "label_ok l"
  proof
    assume "v = []"
    with l a show ?thesis by (simp add: label_ok_def hyphen_lower_alnum_def)
  next
    assume "v \<in> rx_conc (lang (Star (Atom hyphen_lower_alnum))) (lang (Atom lower_alnum))"
    then obtain m b where "v = m @ [b]" "\<forall>c \<in> set m. hyphen_lower_alnum c" "lower_alnum b"
      unfolding lang_Star_Atom by (auto simp: rx_conc_iff)
    with l a show ?thesis by (simp add: label_ok_def hyphen_lower_alnum_def)
  qed
next
  assume ok: "label_ok l"
  then obtain a t where l: "l = a # t" by (cases l) (auto simp: label_ok_def)
  with ok have a: "[a] \<in> lang (Atom lower_alnum)" by (simp add: label_ok_def)
  have "t \<in> lang (Opt (Seq (Star (Atom hyphen_lower_alnum)) (Atom lower_alnum)))"
  proof (cases "t = []")
    case True
    then show ?thesis by (simp add: lang_Opt)
  next
    case False
    then have t: "t = butlast t @ [last t]" by simp
    from ok l False have "lower_alnum (last t)" "\<forall>c \<in> set (butlast t). hyphen_lower_alnum c"
      by (auto simp: label_ok_def dest: in_set_butlastD)
    then have "butlast t \<in> lang (Star (Atom hyphen_lower_alnum))" "[last t] \<in> lang (Atom lower_alnum)"
      by (simp_all add: rx_star_chars)
    then have "butlast t @ [last t] \<in> lang (Seq (Star (Atom hyphen_lower_alnum)) (Atom lower_alnum))"
      unfolding lang.simps(4) rx_conc_iff by blast
    with t show ?thesis by (simp add: lang_Opt)
  qed
  with a have "[a] @ t \<in> lang k8s_label_rx"
    unfolding k8s_label_rx_def lang.simps(4) rx_conc_iff by blast
  with l show "l \<in> lang k8s_label_rx" by simp
qed

lemma label_ok_no_dot: "label_ok l \<Longrightarrow> ch CHR ''.'' \<notin> set l"
  using dot_not_hyphen_lower_alnum by (auto simp: label_ok_def)

lemma dot_label_star_split:
  assumes "u \<in> rx_star (rx_conc {[ch CHR ''.'']} {l. label_ok l})" and "label_ok l"
  shows "list_all label_ok (split_on (ch CHR ''.'') (l @ u))"
  using assms
proof (induction arbitrary: l rule: rx_star.induct)
  case rx_star_empty
  then show ?case by (simp add: split_on_no_separator label_ok_no_dot)
next
  case (rx_star_more x v)
  from rx_star_more.hyps(1) obtain l' where x: "x = ch CHR ''.'' # l'" and l': "label_ok l'"
    by (auto simp: rx_conc_iff)
  have "split_on (ch CHR ''.'') (l @ ch CHR ''.'' # (l' @ v)) = l # split_on (ch CHR ''.'') (l' @ v)"
    using rx_star_more.prems by (intro split_on_first_piece label_ok_no_dot)
  with rx_star_more.IH [OF l'] rx_star_more.prems x show ?case by simp
qed

lemma split_labels_in_lang:
  "list_all label_ok (split_on (ch CHR ''.'') s)
   \<Longrightarrow> s \<in> rx_conc {l. label_ok l} (rx_star (rx_conc {[ch CHR ''.'']} {l. label_ok l}))"
proof (induction s rule: length_induct)
  case (1 s)
  let ?d = "ch CHR ''.''"
  let ?D = "rx_conc {[?d]} {l. label_ok l}"
  from split_on_decompose [of ?d s] show ?case
  proof
    assume "?d \<notin> set s \<and> split_on ?d s = [s]"
    with "1.prems" have "label_ok s" by simp
    then have "s @ [] \<in> rx_conc {l. label_ok l} (rx_star ?D)"
      unfolding rx_conc_iff using rx_star_empty by blast
    then show ?thesis by simp
  next
    assume "\<exists>l rest. s = l @ ?d # rest \<and> ?d \<notin> set l \<and> split_on ?d s = l # split_on ?d rest"
    then obtain l rest where s: "s = l @ ?d # rest" and sp: "split_on ?d s = l # split_on ?d rest"
      by blast
    from "1.prems" sp have l: "label_ok l" and rest: "list_all label_ok (split_on ?d rest)" by simp_all
    from s have "length rest < length s" by simp
    with "1.IH" rest have "rest \<in> rx_conc {l. label_ok l} (rx_star ?D)" by blast
    then obtain l' u where r: "rest = l' @ u" and l': "label_ok l'" and u: "u \<in> rx_star ?D"
      by (auto simp: rx_conc_iff)
    from l' have "[?d] @ l' \<in> ?D" unfolding rx_conc_iff by blast
    from this u have "([?d] @ l') @ u \<in> rx_star ?D" by (rule rx_star_more)
    with l have "l @ (([?d] @ l') @ u) \<in> rx_conc {l. label_ok l} (rx_star ?D)"
      unfolding rx_conc_iff by blast
    with s r show ?thesis by simp
  qed
qed

lemma lang_k8s_name:
  "s \<in> lang k8s_name_rx \<longleftrightarrow> list_all label_ok (split_on (ch CHR ''.'') s)"
proof -
  have L: "lang k8s_label_rx = {l. label_ok l}" using lang_k8s_label by blast
  have eq: "lang k8s_name_rx = rx_conc {l. label_ok l} (rx_star (rx_conc {[ch CHR ''.'']} {l. label_ok l}))"
    by (simp add: k8s_name_rx_def L)
  show ?thesis
  proof
    assume "s \<in> lang k8s_name_rx"
    then obtain l u where "s = l @ u" "label_ok l" "u \<in> rx_star (rx_conc {[ch CHR ''.'']} {l. label_ok l})"
      unfolding eq by (auto simp: rx_conc_iff)
    then show "list_all label_ok (split_on (ch CHR ''.'') s)"
      using dot_label_star_split by simp
  next
    assume "list_all label_ok (split_on (ch CHR ''.'') s)"
    then show "s \<in> lang k8s_name_rx" unfolding eq by (rule split_labels_in_lang)
  qed
qed

lemma dropWhile_all_iff: "(\<forall>x \<in> set (dropWhile P xs). P x) \<longleftrightarrow> (\<forall>x \<in> set xs. P x)"
proof
  assume a: "\<forall>x \<in> set (dropWhile P xs). P x"
  have "dropWhile P xs = []"
  proof (rule ccontr)
    assume ne: "dropWhile P xs \<noteq> []"
    then have "\<not> P (hd (dropWhile P xs))" by (rule hd_dropWhile)
    moreover from ne have "hd (dropWhile P xs) \<in> set (dropWhile P xs)" by simp
    ultimately show False using a by blast
  qed
  then show "\<forall>x \<in> set xs. P x" by (simp add: dropWhile_eq_Nil_conv)
next
  assume "\<forall>x \<in> set xs. P x"
  then show "\<forall>x \<in> set (dropWhile P xs). P x" by (auto dest: set_dropWhileD)
qed

lemma trim_eq_Nil: "trim s = [] \<longleftrightarrow> (\<forall>c \<in> set s. is_whitespace c)"
  by (simp add: trim_def dropWhile_eq_Nil_conv dropWhile_all_iff)

lemma trim_last_not_whitespace: "trim s \<noteq> [] \<Longrightarrow> \<not> is_whitespace (last (trim s))"
  unfolding trim_def by (simp add: last_rev hd_dropWhile)

lemma label_ok_spec: "label_ok l = spec_dns_label l"
  by (auto simp: label_ok_def spec_dns_label_def hyphen_lower_alnum_def lower_alnum_spec list_all_iff)

lemma labels_have_alnum:
  assumes "list_all label_ok (split_on d s)"
  shows "\<exists>c \<in> set s. lower_alnum c"
proof -
  from split_on_decompose [of d s] have "\<exists>l. set l \<subseteq> set s \<and> label_ok l"
  proof
    assume "d \<notin> set s \<and> split_on d s = [s]"
    with assms have "set s \<subseteq> set s \<and> label_ok s" by simp
    then show ?thesis by blast
  next
    assume "\<exists>l rest. s = l @ d # rest \<and> d \<notin> set l \<and> split_on d s = l # split_on d rest"
    then obtain l rest where "s = l @ d # rest" "split_on d s = l # split_on d rest" by blast
    with assms have "set l \<subseteq> set s \<and> label_ok l" by auto
    then show ?thesis by blast
  qed
  then obtain l where "set l \<subseteq> set s" "label_ok l" by blast
  then have "hd l \<in> set s" "lower_alnum (hd l)" by (auto simp: label_ok_def)
  then show ?thesis by blast
qed

lemma isValidK8sName_iff:
  "isValidK8sName name \<longleftrightarrow> name \<noteq> [] \<and> length name \<le> 253 \<and> spec_dns_subdomain name"
proof -
  have "list_all label_ok (split_on (ch CHR ''.'') name) = spec_dns_subdomain name"
    unfolding spec_dns_subdomain_def using label_ok_spec by presburger
  then show ?thesis
    by (auto simp: isValidK8sName_def rx_test_lang lang_k8s_name)
qed

lemma isValidK8sName_trim: "isValidK8sName name \<Longrightarrow> trim name \<noteq> []"
proof -
  assume "isValidK8sName name"
  then have "list_all label_ok (split_on (ch CHR ''.'') name)"
    by (simp add: isValidK8sName_def rx_test_lang lang_k8s_name split: if_splits)
  then obtain c where "c \<in> set name" "lower_alnum c" using labels_have_alnum by blast
  then show ?thesis using lower_alnum_not_whitespace by (auto simp: trim_eq_Nil)
qed

text \<open>
  C4. \<open>validateSecretName\<close> reports valid, and equivalently \<open>isValidK8sName\<close> holds, if and
  only if the name is non-empty, has at most 253 code units, and follows the DNS-subdomain
  grammar: split at the dots, every label is a non-empty string of lowercase alphanumerics
  and hyphens that starts and ends with a lowercase alphanumeric.
\<close>
theorem validateSecretName_dns_subdomain:
  "(valid (validateSecretName name)
      \<longleftrightarrow> name \<noteq> [] \<and> length name \<le> 253 \<and> spec_dns_subdomain name)
   \<and> (isValidK8sName name
      \<longleftrightarrow> name \<noteq> [] \<and> length name \<le> 253 \<and> spec_dns_subdomain name)"
proof -
  have "valid (validateSecretName name) \<longleftrightarrow> isValidK8sName name"
  proof (cases "isValidK8sName name")
    case True
    then have "name \<noteq> []" "length name \<le> 253" "trim name \<noteq> []"
      by (simp_all add: isValidK8sName_iff isValidK8sName_trim)
    with True show ?thesis by (simp add: validateSecretName_def)
  next
    case False
    then show ?thesis by (simp add: validateSecretName_def)
  qed
  then show ?thesis by (simp add: isValidK8sName_iff)
qed

theorem validateSecretName_dns_subdomain_witness:
  "valid (validateSecretName (js ''db-creds.v1'')) \<and> isValidK8sName (js ''db-creds.v1'')
   \<and> \<not> valid (validateSecretName (js ''Invalid_Name'')) \<and> \<not> isValidK8sName (js ''-a.b'')"
  using validateSecretName_dns_subdomain [of "js ''db-creds.v1''"]
    validateSecretName_dns_subdomain [of "js ''Invalid_Name''"]
    validateSecretName_dns_subdomain [of "js ''-a.b''"]
  by (simp add: spec_dns_subdomain_def spec_dns_label_def spec_lower_alnum_def js_def ch_def)

lemma validateSecretValue_code_units:
  "valid (validateSecretValue v) \<longleftrightarrow> trim v \<noteq> [] \<and> length v \<le> 1048576"
  by (auto simp: validateSecretValue_def trim_eq_Nil)

text \<open>
  C5. \<open>validateSecretValue\<close> bounds the length of the value in UTF-16 code units, not its
  size in bytes: the string of 600,000 code units U+00E9 is reported valid, and its size is
  1,200,000 bytes, above 1,048,576, so the specification's rule rejects it.
\<close>
theorem validateSecretValue_counts_code_units:
  "valid (validateSecretValue (replicate 600000 0xE9))
   \<and> spec_byte_size (replicate 600000 0xE9) = 1200000
   \<and> \<not> spec_value_valid (replicate 600000 0xE9)"
proof -
  have ws: "\<not> is_whitespace (0xE9 :: jschar)" by (simp add: is_whitespace_def)
  have sz: "spec_byte_size (replicate 600000 0xE9) = 1200000"
    by (simp add: spec_byte_size_def utf8_unit_size_def sum_list_replicate)
  have "valid (validateSecretValue (replicate 600000 0xE9))"
    using ws by (simp add: validateSecretValue_code_units trim_eq_Nil)
  with sz show ?thesis by (simp add: spec_value_valid_def)
qed

lemma lang_Plus_Atom: "lang (Plus (Atom p)) = {s. s \<noteq> [] \<and> (\<forall>c \<in> set s. p c)}"
proof (intro set_eqI iffI)
  fix s assume "s \<in> lang (Plus (Atom p))"
  then obtain u v where "s = u @ v" "u \<in> {[c] | c. p c}" "v \<in> {s. \<forall>c \<in> set s. p c}"
    unfolding lang_Plus lang_Star_Atom [simplified] lang.simps(3) rx_star_chars rx_conc_iff by blast
  then show "s \<in> {s. s \<noteq> [] \<and> (\<forall>c \<in> set s. p c)}" by auto
next
  fix s assume "s \<in> {s. s \<noteq> [] \<and> (\<forall>c \<in> set s. p c)}"
  then obtain a t where "s = [a] @ t" "[a] \<in> {[c] | c. p c}" "t \<in> {s. \<forall>c \<in> set s. p c}"
    by (cases s) auto
  then show "s \<in> lang (Plus (Atom p))"
    unfolding lang_Plus lang.simps(3) rx_star_chars rx_conc_iff by blast
qed

lemma lang_pemRegex:
  "t \<in> lang pemRegex \<longleftrightarrow>
     (\<exists>w1 body w2 w3. t = BEGIN_CERTIFICATE @ w1 @ body @ w2 @ END_CERTIFICATE @ w3
        \<and> w1 \<noteq> [] \<and> (\<forall>c \<in> set w1. is_whitespace c) \<and> body \<noteq> []
        \<and> w2 \<noteq> [] \<and> (\<forall>c \<in> set w2. is_whitespace c) \<and> (\<forall>c \<in> set w3. is_whitespace c))"
proof -
  have any: "lang (Plus (Atom (\<lambda>c. is_whitespace c \<or> \<not> is_whitespace c))) = {s. s \<noteq> []}"
    by (simp add: lang_Plus_Atom)
  have "lang pemRegex =
      rx_conc {BEGIN_CERTIFICATE}
        (rx_conc {s. s \<noteq> [] \<and> (\<forall>c \<in> set s. is_whitespace c)}
          (rx_conc {s. s \<noteq> []}
            (rx_conc {s. s \<noteq> [] \<and> (\<forall>c \<in> set s. is_whitespace c)}
              (rx_conc {END_CERTIFICATE} {s. \<forall>c \<in> set s. is_whitespace c}))))"
    by (simp add: pemRegex_def lang_Lit lang_Plus_Atom rx_star_chars)
  then show ?thesis
    unfolding rx_conc_iff by (simp add: rx_conc_iff) blast
qed

lemma isValidPEM_shape:
  "isValidPEM v \<longleftrightarrow>
     (\<exists>w1 body w2. trim v = BEGIN_CERTIFICATE @ w1 @ body @ w2 @ END_CERTIFICATE
        \<and> w1 \<noteq> [] \<and> (\<forall>c \<in> set w1. is_whitespace c) \<and> body \<noteq> []
        \<and> w2 \<noteq> [] \<and> (\<forall>c \<in> set w2. is_whitespace c))"
proof
  assume "isValidPEM v"
  then have "trim v \<in> lang pemRegex" by (simp add: isValidPEM_def rx_test_lang split: if_splits)
  then obtain w1 body w2 w3 where t: "trim v = BEGIN_CERTIFICATE @ w1 @ body @ w2 @ END_CERTIFICATE @ w3"
    and w: "w1 \<noteq> []" "\<forall>c \<in> set w1. is_whitespace c" "body \<noteq> []" "w2 \<noteq> []"
      "\<forall>c \<in> set w2. is_whitespace c" "\<forall>c \<in> set w3. is_whitespace c"
    unfolding lang_pemRegex by blast
  have "w3 = []"
  proof (rule ccontr)
    assume ne: "w3 \<noteq> []"
    with t have "last (trim v) = last w3" "trim v \<noteq> []" by simp_all
    with ne w(6) trim_last_not_whitespace [of v] show False by (metis last_in_set)
  qed
  with t w show "\<exists>w1 body w2. trim v = BEGIN_CERTIFICATE @ w1 @ body @ w2 @ END_CERTIFICATE
        \<and> w1 \<noteq> [] \<and> (\<forall>c \<in> set w1. is_whitespace c) \<and> body \<noteq> []
        \<and> w2 \<noteq> [] \<and> (\<forall>c \<in> set w2. is_whitespace c)" by auto
next
  assume "\<exists>w1 body w2. trim v = BEGIN_CERTIFICATE @ w1 @ body @ w2 @ END_CERTIFICATE
        \<and> w1 \<noteq> [] \<and> (\<forall>c \<in> set w1. is_whitespace c) \<and> body \<noteq> []
        \<and> w2 \<noteq> [] \<and> (\<forall>c \<in> set w2. is_whitespace c)"
  then obtain w1 body w2 where t: "trim v = BEGIN_CERTIFICATE @ w1 @ body @ w2 @ END_CERTIFICATE @ []"
    and w: "w1 \<noteq> []" "\<forall>c \<in> set w1. is_whitespace c" "body \<noteq> []" "w2 \<noteq> []"
      "\<forall>c \<in> set w2. is_whitespace c" "\<forall>c \<in> set ([]::jsstring). is_whitespace c"
    by auto
  then have "trim v \<in> lang pemRegex" unfolding lang_pemRegex by blast
  moreover from t w(1) have "v \<noteq> []" by (auto simp: trim_def)
  ultimately show "isValidPEM v" by (simp add: isValidPEM_def rx_test_lang)
qed

lemma validatePEMCertificate_isValidPEM: "valid (validatePEMCertificate pem) \<longleftrightarrow> isValidPEM pem"
proof (cases "isValidPEM pem")
  case True
  then have "pem \<noteq> []" by (simp add: isValidPEM_def split: if_splits)
  moreover from True have "trim pem \<noteq> []" unfolding isValidPEM_shape by auto
  ultimately show ?thesis using True by (simp add: validatePEMCertificate_def)
next
  case False
  then show ?thesis by (simp add: validatePEMCertificate_def)
qed

text \<open>
  C6, amended. \<open>isValidPEM\<close> accepts a string, and equivalently \<open>validatePEMCertificate\<close>
  reports valid, if and only if the trimmed string is the BEGIN marker, at least one
  whitespace code unit, any non-empty content (base64 or not), at least one whitespace code
  unit, and the END marker.
\<close>
theorem isValidPEM_envelope:
  "(isValidPEM v \<longleftrightarrow>
     (\<exists>w1 body w2. trim v = BEGIN_CERTIFICATE @ w1 @ body @ w2 @ END_CERTIFICATE
        \<and> w1 \<noteq> [] \<and> (\<forall>c \<in> set w1. is_whitespace c) \<and> body \<noteq> []
        \<and> w2 \<noteq> [] \<and> (\<forall>c \<in> set w2. is_whitespace c)))
   \<and> (valid (validatePEMCertificate v) \<longleftrightarrow> isValidPEM v)"
  using isValidPEM_shape [of v] validatePEMCertificate_isValidPEM [of v] by blast

text \<open>
  C6, the claim as stated fails: the text with a single \<open>!\<close> on the line between the markers
  is accepted, and it is not an envelope around base64 content.
\<close>
theorem isValidPEM_not_base64_counterexample:
  "isValidPEM (js ''-----BEGIN CERTIFICATE-----'' @ newline @ js ''!'' @ newline @ js ''-----END CERTIFICATE-----'')
   \<and> \<not> spec_pem_envelope
         (trim (js ''-----BEGIN CERTIFICATE-----'' @ newline @ js ''!'' @ newline @ js ''-----END CERTIFICATE-----''))"
proof -
  have "isValidPEM (js ''-----BEGIN CERTIFICATE-----'' @ newline @ js ''!'' @ newline @ js ''-----END CERTIFICATE-----'')"
    by (simp add: isValidPEM_def pemRegex_def rx_test_def Plus_def BEGIN_CERTIFICATE_def
          END_CERTIFICATE_def js_def ch_def trim_def is_whitespace_def newline_def)
  moreover have "\<not> spec_pem_envelope
         (trim (js ''-----BEGIN CERTIFICATE-----'' @ newline @ js ''!'' @ newline @ js ''-----END CERTIFICATE-----''))"
    by (simp add: spec_pem_envelope_def spec_base64_char_def BEGIN_CERTIFICATE_def
          END_CERTIFICATE_def js_def ch_def trim_def is_whitespace_def newline_def)
  ultimately show ?thesis by simp
qed

theorem isValidPEM_envelope_witness:
  "isValidPEM (js '' -----BEGIN CERTIFICATE-----'' @ newline @ js ''MIIB'' @ newline @ js ''-----END CERTIFICATE----- '')
   \<and> valid (validatePEMCertificate
        (js '' -----BEGIN CERTIFICATE-----'' @ newline @ js ''MIIB'' @ newline @ js ''-----END CERTIFICATE----- ''))
   \<and> (\<exists>w1 body w2.
        trim (js '' -----BEGIN CERTIFICATE-----'' @ newline @ js ''MIIB'' @ newline @ js ''-----END CERTIFICATE----- '')
          = BEGIN_CERTIFICATE @ w1 @ body @ w2 @ END_CERTIFICATE
        \<and> w1 \<noteq> [] \<and> (\<forall>c \<in> set w1. is_whitespace c) \<and> body \<noteq> []
        \<and> w2 \<noteq> [] \<and> (\<forall>c \<in> set w2. is_whitespace c))"
proof -
  have "isValidPEM (js '' -----BEGIN CERTIFICATE-----'' @ newline @ js ''MIIB'' @ newline @ js ''-----END CERTIFICATE----- '')"
    by (simp add: isValidPEM_def pemRegex_def rx_test_def Plus_def BEGIN_CERTIFICATE_def
          END_CERTIFICATE_def js_def ch_def trim_def is_whitespace_def newline_def)
  with isValidPEM_envelope [of "js '' -----BEGIN CERTIFICATE-----'' @ newline @ js ''MIIB'' @ newline @ js ''-----END CERTIFICATE----- ''"]
  show ?thesis by blast
qed

end
